theory Spec2Isabelle
  imports Main "HOL-Library.Word"
begin

section \<open>The reindex script (scripts/reindex.ts)\<close>

text \<open>
  The script reads three environment variables, loads a list of seed documents, optionally
  sends one DELETE per document, then sends one POST per document, tallies the POST outcomes
  and sets the exit code. The embedding follows the script function by function. What the
  script takes from outside is a parameter of the model:
  \<^item> \<open>process.env\<close>, after dotenv has merged \<open>.env.development\<close> into it, is a map;
  \<^item> the value of \<open>loadSeedData()\<close> (readFileSync and JSON.parse) is either the exception
    thrown or the document list;
  \<^item> the network is a function from the exchanges so far and the request to the outcome of
    \<open>fetch\<close>: the promise rejects, or resolves with a status and a body.
  Console output and the requests issued are recorded in an explicit state.
\<close>

subsection \<open>JavaScript strings\<close>

text \<open>
  A JavaScript string is a sequence of UTF-16 code units. \<open>js\<close> turns an ASCII literal
  into one; characters beyond ASCII are written as code units.
\<close>

type_synonym jsstring = "16 word list"

definition js :: "string \<Rightarrow> jsstring" where
  "js s = map of_char s"

text \<open>Template interpolation of a number: its decimal digits.\<close>

fun dec :: "nat \<Rightarrow> jsstring" where
  "dec n = (if n < 10 then [of_nat (48 + n)] else dec (n div 10) @ [of_nat (48 + n mod 10)])"

declare dec.simps [simp del]

text \<open>
  A value of type \<open>string | undefined\<close> is a \<open>jsstring option\<close>. It is falsy when it is
  \<open>undefined\<close> or the empty string; \<open>a || b\<close> is \<open>a\<close> when \<open>a\<close> is truthy and \<open>b\<close>
  otherwise; interpolated into a template, \<open>undefined\<close> reads "undefined".
\<close>

fun truthy :: "jsstring option \<Rightarrow> bool" where
  "truthy None = False"
| "truthy (Some s) = (s \<noteq> [])"

definition js_or :: "jsstring option \<Rightarrow> jsstring option \<Rightarrow> jsstring option" where
  "js_or a b = (if truthy a then a else b)"

fun interp :: "jsstring option \<Rightarrow> jsstring" where
  "interp None = js ''undefined''"
| "interp (Some s) = s"

subsection \<open>encodeURIComponent\<close>

text \<open>
  The built-in \<open>encodeURIComponent\<close> (ECMA-262, abstract operation Encode with the empty
  set of extra unescaped characters). A code unit of the unescaped set is copied. Any other
  is read as a code point (a leading surrogate takes the trailing surrogate after it),
  written in UTF-8, and each octet becomes \<open>%\<close> and two upper-case hexadecimal digits. An
  unpaired surrogate throws URIError.
\<close>

datatype js_exn = URIError | FetchRejected | ReadFileError | JSONSyntaxError

definition uriUnescaped :: "16 word \<Rightarrow> bool" where
  "uriUnescaped c =
     (let n = unat c in
      (65 \<le> n \<and> n \<le> 90) \<or> (97 \<le> n \<and> n \<le> 122) \<or> (48 \<le> n \<and> n \<le> 57) \<or>
      n = 45 \<or> n = 95 \<or> n = 46 \<or> n = 33 \<or> n = 126 \<or> n = 42 \<or> n = 39 \<or> n = 40 \<or> n = 41)"

definition isLeadingSurrogate :: "16 word \<Rightarrow> bool" where
  "isLeadingSurrogate c = (55296 \<le> unat c \<and> unat c \<le> 56319)"

definition isTrailingSurrogate :: "16 word \<Rightarrow> bool" where
  "isTrailingSurrogate c = (56320 \<le> unat c \<and> unat c \<le> 57343)"

definition UTF16SurrogatePairToCodePoint :: "16 word \<Rightarrow> 16 word \<Rightarrow> nat" where
  "UTF16SurrogatePairToCodePoint lead trail =
     (unat lead - 55296) * 1024 + (unat trail - 56320) + 65536"

definition utf8 :: "nat \<Rightarrow> nat list" where
  "utf8 cp =
     (if cp < 128 then [cp]
      else if cp < 2048 then [192 + cp div 64, 128 + cp mod 64]
      else if cp < 65536 then [224 + cp div 4096, 128 + (cp div 64) mod 64, 128 + cp mod 64]
      else [240 + cp div 262144, 128 + (cp div 4096) mod 64, 128 + (cp div 64) mod 64,
            128 + cp mod 64])"

definition hexdigit :: "nat \<Rightarrow> 16 word" where
  "hexdigit n = (if n < 10 then of_nat (48 + n) else of_nat (55 + n))"

definition percent :: "nat \<Rightarrow> jsstring" where
  "percent octet = [37, hexdigit (octet div 16), hexdigit (octet mod 16)]"

definition escape :: "nat \<Rightarrow> jsstring" where
  "escape cp = concat (map percent (utf8 cp))"

fun encodeURIComponent :: "jsstring \<Rightarrow> js_exn + jsstring" where
  "encodeURIComponent [] = Inr []"
| "encodeURIComponent (c # cs) =
     (if uriUnescaped c then
        (case encodeURIComponent cs of Inl e \<Rightarrow> Inl e | Inr r \<Rightarrow> Inr (c # r))
      else if isTrailingSurrogate c then Inl URIError
      else if isLeadingSurrogate c then
        (case cs of
           [] \<Rightarrow> Inl URIError
         | d # ds \<Rightarrow>
             if isTrailingSurrogate d then
               (case encodeURIComponent ds of
                  Inl e \<Rightarrow> Inl e
                | Inr r \<Rightarrow> Inr (escape (UTF16SurrogatePairToCodePoint c d) @ r))
             else Inl URIError)
      else
        (case encodeURIComponent cs of Inl e \<Rightarrow> Inl e | Inr r \<Rightarrow> Inr (escape (unat c) @ r)))"

subsection \<open>Documents, requests, responses\<close>

record SeedDocument =
  id_doc :: jsstring
  text_doc :: jsstring
  metadata_doc :: "(jsstring \<times> jsstring) list option"

datatype http_method = DELETE | POST

text \<open>
  The field \<open>method\<close> of a request is \<open>method_req\<close> here. The body of an index request
  is \<open>JSON.stringify(doc)\<close>; the model keeps the document it serialises.
\<close>

record request =
  method_req :: http_method
  url :: jsstring
  headers :: "(jsstring \<times> jsstring) list"
  body :: "SeedDocument option"

text \<open>
  A response is its status and the text that \<open>res.text()\<close> resolves with. \<open>res.ok\<close> is
  that of the Fetch standard: the status is in the range 200 to 299.
\<close>

record response =
  status :: nat
  body_text :: jsstring

definition ok :: "response \<Rightarrow> bool" where
  "ok res = (200 \<le> status res \<and> status res \<le> 299)"

datatype fetch_result = Rejected js_exn | Resolved response

type_synonym exchange = "request \<times> fetch_result"

type_synonym network = "exchange list \<Rightarrow> request \<Rightarrow> fetch_result"

subsection \<open>Console and request log\<close>

datatype console_line =
    Log jsstring
  | Error jsstring
  | ErrorWith jsstring js_exn

record io =
  console :: "console_line list"
  trace :: "exchange list"

definition console_log :: "jsstring \<Rightarrow> io \<Rightarrow> io" where
  "console_log l s = s\<lparr>console := console s @ [Log l]\<rparr>"

definition console_error :: "jsstring \<Rightarrow> io \<Rightarrow> io" where
  "console_error l s = s\<lparr>console := console s @ [Error l]\<rparr>"

definition fetch :: "network \<Rightarrow> request \<Rightarrow> io \<Rightarrow> fetch_result \<times> io" where
  "fetch net req s =
     (let out = net (trace s) req in (out, s\<lparr>trace := trace s @ [(req, out)]\<rparr>))"

subsection \<open>deleteDocument and indexDocument\<close>

record config =
  API_URL :: "jsstring option"
  API_KEY :: "jsstring option"

definition delete_request :: "config \<Rightarrow> jsstring \<Rightarrow> request" where
  "delete_request cfg seg =
     \<lparr>method_req = DELETE,
      url = interp (API_URL cfg) @ js ''/v1/documents/'' @ seg,
      headers = [(js ''Authorization'', js ''Bearer '' @ interp (API_KEY cfg))],
      body = None\<rparr>"

definition deleted_line :: "jsstring \<Rightarrow> jsstring" where
  "deleted_line i = [32, 32, 10003] @ js '' Deleted: '' @ i"

definition not_found_line :: "jsstring \<Rightarrow> jsstring" where
  "not_found_line i = js ''  - Not found (skip): '' @ i"

definition delete_failed_line :: "jsstring \<Rightarrow> response \<Rightarrow> jsstring" where
  "delete_failed_line i res =
     [32, 32, 10007] @ js '' Failed to delete '' @ i @ js '': '' @ dec (status res) @ js '' ''
       @ body_text res"

definition deleteDocument :: "config \<Rightarrow> network \<Rightarrow> jsstring \<Rightarrow> io \<Rightarrow> (js_exn + bool) \<times> io" where
  "deleteDocument cfg net i s =
     (case encodeURIComponent i of
        Inl e \<Rightarrow> (Inl e, s)
      | Inr seg \<Rightarrow>
          (case fetch net (delete_request cfg seg) s of
             (Rejected e, s') \<Rightarrow> (Inl e, s')
           | (Resolved res, s') \<Rightarrow>
               if ok res then (Inr True, console_log (deleted_line i) s')
               else if status res = 404 then (Inr True, console_log (not_found_line i) s')
               else (Inr False, console_error (delete_failed_line i res) s')))"

definition index_request :: "config \<Rightarrow> SeedDocument \<Rightarrow> request" where
  "index_request cfg doc =
     \<lparr>method_req = POST,
      url = interp (API_URL cfg) @ js ''/v1/documents'',
      headers = [(js ''Authorization'', js ''Bearer '' @ interp (API_KEY cfg)),
                 (js ''Content-Type'', js ''application/json'')],
      body = Some doc\<rparr>"

definition indexed_line :: "jsstring \<Rightarrow> jsstring" where
  "indexed_line i = [32, 32, 10003] @ js '' Indexed: '' @ i"

definition index_failed_line :: "jsstring \<Rightarrow> response \<Rightarrow> jsstring" where
  "index_failed_line i res =
     [32, 32, 10007] @ js '' Failed to index '' @ i @ js '': '' @ dec (status res) @ js '' ''
       @ body_text res"

definition indexDocument :: "config \<Rightarrow> network \<Rightarrow> SeedDocument \<Rightarrow> io \<Rightarrow> (js_exn + bool) \<times> io" where
  "indexDocument cfg net doc s =
     (case fetch net (index_request cfg doc) s of
        (Rejected e, s') \<Rightarrow> (Inl e, s')
      | (Resolved res, s') \<Rightarrow>
          if ok res then (Inr True, console_log (indexed_line (id_doc doc)) s')
          else (Inr False, console_error (index_failed_line (id_doc doc) res) s'))"

subsection \<open>main\<close>

text \<open>The two \<open>for ... of\<close> loops. An exception leaves the loop at once.\<close>

fun delete_loop :: "config \<Rightarrow> network \<Rightarrow> SeedDocument list \<Rightarrow> io \<Rightarrow> (js_exn + unit) \<times> io" where
  "delete_loop cfg net [] s = (Inr (), s)"
| "delete_loop cfg net (doc # docs) s =
     (case deleteDocument cfg net (id_doc doc) s of
        (Inl e, s') \<Rightarrow> (Inl e, s')
      | (Inr _, s') \<Rightarrow> delete_loop cfg net docs s')"

fun index_loop ::
  "config \<Rightarrow> network \<Rightarrow> SeedDocument list \<Rightarrow> nat \<times> nat \<Rightarrow> io \<Rightarrow> (js_exn + nat \<times> nat) \<times> io" where
  "index_loop cfg net [] (success, failed) s = (Inr (success, failed), s)"
| "index_loop cfg net (doc # docs) (success, failed) s =
     (case indexDocument cfg net doc s of
        (Inl e, s') \<Rightarrow> (Inl e, s')
      | (Inr b, s') \<Rightarrow>
          if b then index_loop cfg net docs (success + 1, failed) s'
          else index_loop cfg net docs (success, failed + 1) s')"

definition summary_line :: "nat \<Rightarrow> nat \<Rightarrow> jsstring" where
  "summary_line success failed =
     [9989] @ js '' Done: '' @ dec success @ js '' indexed, '' @ dec failed @ js '' failed''"

text \<open>
  How \<open>main\<close> ends: its promise rejects, it calls \<open>process.exit\<close>, or it returns. The
  second component of the result is the pair of the locals \<open>success\<close> and \<open>failed\<close> once
  the summary line has been printed.
\<close>

datatype completion = Threw js_exn | Exited nat | Returned

text \<open>The block under \<open>if (shouldClean)\<close>.\<close>

definition delete_phase ::
  "config \<Rightarrow> network \<Rightarrow> SeedDocument list \<Rightarrow> bool \<Rightarrow> io \<Rightarrow> (js_exn + unit) \<times> io" where
  "delete_phase cfg net documents shouldClean s =
     (if shouldClean then
        (case delete_loop cfg net documents
                (console_log ([55357, 56785, 65039] @ js ''  Deleting existing documents...'') s) of
           (Inl e, s') \<Rightarrow> (Inl e, s')
         | (Inr u, s') \<Rightarrow> (Inr u, console_log [] s'))
      else (Inr (), s))"

text \<open>The rest of \<open>main\<close>: the index loop, the summary and the exit code.\<close>

definition index_phase ::
  "config \<Rightarrow> network \<Rightarrow> SeedDocument list \<Rightarrow> io \<Rightarrow> (completion \<times> (nat \<times> nat) option) \<times> io" where
  "index_phase cfg net documents s =
     (case index_loop cfg net documents (0, 0)
             (console_log ([55357, 56549] @ js '' Indexing documents...'') s) of
        (Inl e, s') \<Rightarrow> ((Threw e, None), s')
      | (Inr (success, failed), s') \<Rightarrow>
          (let s'' = console_log (summary_line success failed) (console_log [] s')
           in if failed > 0 then ((Exited 1, Some (success, failed)), s'')
              else ((Returned, Some (success, failed)), s'')))"

text \<open>The four lines \<open>main\<close> prints first, and the line after the seed data is loaded.\<close>

definition banner :: "config \<Rightarrow> bool \<Rightarrow> io \<Rightarrow> io" where
  "banner cfg shouldClean s0 =
     (let s1 = console_log ([10, 55357, 56580] @ js '' Reindex Script'') s0;
          s2 = console_log (js ''   API: '' @ interp (API_URL cfg)) s1;
          s3 = console_log (js ''   Clean mode: '' @ (if shouldClean then js ''yes'' else js ''no'')) s2
      in console_log [] s3)"

definition loaded_line :: "nat \<Rightarrow> jsstring" where
  "loaded_line n =
     [55357, 56516] @ js '' Loaded '' @ dec n @ js '' documents from seed-data.json'' @ [10]"

definition main ::
  "config \<Rightarrow> network \<Rightarrow> js_exn + SeedDocument list \<Rightarrow> jsstring list \<Rightarrow> io
     \<Rightarrow> (completion \<times> (nat \<times> nat) option) \<times> io" where
  "main cfg net loadSeedData argv s0 =
     (let args = drop 2 argv;
          shouldClean = (js ''--clean'' \<in> set args);
          s4 = banner cfg shouldClean s0
      in case loadSeedData of
           Inl e \<Rightarrow> ((Threw e, None), s4)
         | Inr documents \<Rightarrow>
             (let s5 = console_log (loaded_line (length documents)) s4
              in case delete_phase cfg net documents shouldClean s5 of
                   (Inl e, s6) \<Rightarrow> ((Threw e, None), s6)
                 | (Inr _, s6) \<Rightarrow> index_phase cfg net documents s6))"

subsection \<open>The script\<close>

text \<open>
  The module body: the two configuration guards, then \<open>main().catch(...)\<close>. A run is
  described by its exit code, its console output, the requests it issued with their
  outcomes, and the tally if the summary was reached.
\<close>

record run =
  exit_code :: nat
  printed :: "console_line list"
  requests :: "exchange list"
  tally :: "(nat \<times> nat) option"

definition url_missing :: "console_line list" where
  "url_missing =
     [Error (js ''Error: API_URL environment variable is required''),
      Error (js ''       Set it explicitly to prevent accidental production changes''),
      Error (js ''       Example: API_URL=http://localhost:8787'')]"

definition key_missing :: "console_line list" where
  "key_missing =
     [Error (js ''Error: API_KEY or API_KEY_WRITER environment variable is required''),
      Error (js ''       Set it in .env file or pass via environment'')]"

definition script ::
  "(jsstring \<rightharpoonup> jsstring) \<Rightarrow> network \<Rightarrow> js_exn + SeedDocument list \<Rightarrow> jsstring list \<Rightarrow> run" where
  "script env net loadSeedData argv =
     (let url = env (js ''API_URL'');
          key = js_or (env (js ''API_KEY'')) (env (js ''API_KEY_WRITER''))
      in if \<not> truthy url then
           \<lparr>exit_code = 1, printed = url_missing, requests = [], tally = None\<rparr>
         else if \<not> truthy key then
           \<lparr>exit_code = 1, printed = key_missing, requests = [], tally = None\<rparr>
         else
           (case main \<lparr>API_URL = url, API_KEY = key\<rparr> net loadSeedData argv
                   \<lparr>console = [], trace = []\<rparr> of
              ((Threw e, t), s) \<Rightarrow>
                \<lparr>exit_code = 1, printed = console s @ [ErrorWith (js ''Fatal error:'') e],
                 requests = trace s, tally = t\<rparr>
            | ((Exited c, t), s) \<Rightarrow>
                \<lparr>exit_code = c, printed = console s, requests = trace s, tally = t\<rparr>
            | ((Returned, t), s) \<Rightarrow>
                \<lparr>exit_code = 0, printed = console s, requests = trace s, tally = t\<rparr>))"

subsection \<open>Observations on a run\<close>

text \<open>
  An exchange is a request with the outcome of its \<open>fetch\<close>. \<open>returned_true\<close> and
  \<open>returned_false\<close> give the boolean that \<open>deleteDocument\<close> or \<open>indexDocument\<close> returns
  for it; when the fetch rejects, neither returns.
\<close>

definition is_delete :: "exchange \<Rightarrow> bool" where
  "is_delete x = (method_req (fst x) = DELETE)"

definition is_index :: "exchange \<Rightarrow> bool" where
  "is_index x = (method_req (fst x) = POST)"

fun returned_true :: "exchange \<Rightarrow> bool" where
  "returned_true (req, Resolved res) = (ok res \<or> (method_req req = DELETE \<and> status res = 404))"
| "returned_true (req, Rejected e) = False"

fun returned_false :: "exchange \<Rightarrow> bool" where
  "returned_false (req, Resolved res) = (\<not> (ok res \<or> (method_req req = DELETE \<and> status res = 404)))"
| "returned_false (req, Rejected e) = False"






subsection \<open>Example inputs\<close>

text \<open>
  Concrete environments, documents, command lines and networks, on which the theorems
  below are instantiated.
\<close>

definition demo_env :: "jsstring \<rightharpoonup> jsstring" where
  "demo_env = [js ''API_URL'' \<mapsto> js ''http://localhost:8787'', js ''API_KEY_WRITER'' \<mapsto> js ''secret'']"

definition doc_a :: SeedDocument where
  "doc_a = \<lparr>id_doc = js ''a'', text_doc = js ''first'', metadata_doc = None\<rparr>"

definition doc_b :: SeedDocument where
  "doc_b = \<lparr>id_doc = js ''b'', text_doc = js ''second'', metadata_doc = None\<rparr>"

definition argv_plain :: "jsstring list" where
  "argv_plain = [js ''node'', js ''reindex.ts'']"


definition net_ok :: network where
  "net_ok h req = Resolved \<lparr>status = 200, body_text = []\<rparr>"


definition net_index_500 :: network where
  "net_index_500 h req =
     (if method_req req = POST then Resolved \<lparr>status = 500, body_text = js ''boom''\<rparr>
      else Resolved \<lparr>status = 200, body_text = []\<rparr>)"


definition env_empty_key :: "jsstring \<rightharpoonup> jsstring" where
  "env_empty_key = [js ''API_URL'' \<mapsto> js ''http://localhost:8787'', js ''API_KEY'' \<mapsto> []]"




section \<open>Lemmas\<close>

subsection \<open>The output of encodeURIComponent\<close>

























subsection \<open>One request, and the two loops\<close>

lemma trace_console_log [simp]: "trace (console_log l s) = trace s"
  by (simp add: console_log_def)

lemma console_console_log [simp]: "console (console_log l s) = console s @ [Log l]"
  by (simp add: console_log_def)

lemma trace_console_error [simp]: "trace (console_error l s) = trace s"
  by (simp add: console_error_def)

lemma console_console_error [simp]: "console (console_error l s) = console s @ [Error l]"
  by (simp add: console_error_def)

lemma is_delete_delete_request [simp]: "is_delete (delete_request cfg seg, out)"
  by (simp add: is_delete_def delete_request_def)

lemma is_index_index_request [simp]: "is_index (index_request cfg d, out)"
  by (simp add: is_index_def index_request_def)

lemma deleteDocument_spec:
  "deleteDocument cfg net i s =
     (case encodeURIComponent i of
        Inl e \<Rightarrow> (Inl e, s)
      | Inr seg \<Rightarrow>
          (case net (trace s) (delete_request cfg seg) of
             Rejected e \<Rightarrow> (Inl e, s\<lparr>trace := trace s @ [(delete_request cfg seg, Rejected e)]\<rparr>)
           | Resolved res \<Rightarrow>
               (Inr (ok res \<or> status res = 404),
                (if ok res then console_log (deleted_line i)
                 else if status res = 404 then console_log (not_found_line i)
                 else console_error (delete_failed_line i res))
                  (s\<lparr>trace := trace s @ [(delete_request cfg seg, Resolved res)]\<rparr>))))"
  by (simp add: deleteDocument_def fetch_def Let_def split: sum.splits fetch_result.splits)

lemma indexDocument_spec:
  "indexDocument cfg net d s =
     (case net (trace s) (index_request cfg d) of
        Rejected e \<Rightarrow> (Inl e, s\<lparr>trace := trace s @ [(index_request cfg d, Rejected e)]\<rparr>)
      | Resolved res \<Rightarrow>
          (Inr (ok res),
           (if ok res then console_log (indexed_line (id_doc d))
            else console_error (index_failed_line (id_doc d) res))
             (s\<lparr>trace := trace s @ [(index_request cfg d, Resolved res)]\<rparr>)))"
  by (simp add: indexDocument_def fetch_def Let_def split: fetch_result.splits)

lemma deleteDocument_trace:
  "deleteDocument cfg net i s = (r, s') \<Longrightarrow>
   \<exists>ds. trace s' = trace s @ ds \<and> list_all is_delete ds \<and> length ds \<le> 1 \<and>
        (\<forall>b. r = Inr b \<longrightarrow> length ds = 1)"
  by (auto simp: deleteDocument_spec split: sum.splits fetch_result.splits)

lemma deleteDocument_console:
  "deleteDocument cfg net i s = (r, s') \<Longrightarrow> \<exists>ls. console s' = console s @ ls"
  by (auto simp: deleteDocument_spec split: sum.splits fetch_result.splits)

lemma delete_loop_trace:
  "delete_loop cfg net docs s = (r, s') \<Longrightarrow>
   \<exists>ds. trace s' = trace s @ ds \<and> list_all is_delete ds \<and> length ds \<le> length docs \<and>
        (\<forall>u. r = Inr u \<longrightarrow> length ds = length docs) \<and> (\<forall>e. r = Inl e \<longrightarrow> docs \<noteq> [])"
proof (induction docs arbitrary: s)
  case Nil
  then show ?case by auto
next
  case (Cons d docs)
  obtain r1 s1 where one: "deleteDocument cfg net (id_doc d) s = (r1, s1)"
    by (cases "deleteDocument cfg net (id_doc d) s")
  from deleteDocument_trace [OF one] obtain d1 where d1: "trace s1 = trace s @ d1"
    "list_all is_delete d1" "length d1 \<le> 1" "\<forall>b. r1 = Inr b \<longrightarrow> length d1 = 1"
    by blast
  show ?case
  proof (cases r1)
    case (Inl e)
    with Cons.prems one have "r = Inl e" "s' = s1" by simp_all
    with d1 show ?thesis by (intro exI [of _ d1]) simp
  next
    case (Inr b)
    with Cons.prems one have "delete_loop cfg net docs s1 = (r, s')" by simp
    from Cons.IH [OF this] obtain ds where ds: "trace s' = trace s1 @ ds"
      "list_all is_delete ds" "length ds \<le> length docs"
      "\<forall>u. r = Inr u \<longrightarrow> length ds = length docs"
      by blast
    from d1 Inr have "length d1 = 1" by simp
    with d1 ds show ?thesis by (intro exI [of _ "d1 @ ds"]) simp
  qed
qed

lemma delete_loop_console:
  "delete_loop cfg net docs s = (r, s') \<Longrightarrow> \<exists>ls. console s' = console s @ ls"
proof (induction docs arbitrary: s)
  case Nil
  then show ?case by simp
next
  case (Cons d docs)
  obtain r1 s1 where one: "deleteDocument cfg net (id_doc d) s = (r1, s1)"
    by (cases "deleteDocument cfg net (id_doc d) s")
  from deleteDocument_console [OF one] obtain l1 where l1: "console s1 = console s @ l1" ..
  show ?case
  proof (cases r1)
    case (Inl e)
    with Cons.prems one l1 show ?thesis by simp
  next
    case (Inr b)
    with Cons.prems one have "delete_loop cfg net docs s1 = (r, s')" by simp
    from Cons.IH [OF this] l1 show ?thesis by auto
  qed
qed

lemma index_loop_trace:
  "index_loop cfg net docs (su, fa) s = (r, s') \<Longrightarrow>
   \<exists>ps. trace s' = trace s @ ps \<and> list_all is_index ps \<and> length ps \<le> length docs \<and>
        (\<forall>e. r = Inl e \<longrightarrow> (\<exists>x\<in>set ps. snd x = Rejected e)) \<and>
        (\<forall>su' fa'. r = Inr (su', fa') \<longrightarrow> length ps = length docs \<and>
            su' = su + length (filter returned_true ps) \<and>
            fa' = fa + length (filter returned_false ps) \<and>
            su' + fa' = su + fa + length docs)"
proof (induction docs arbitrary: su fa s)
  case Nil
  then show ?case by auto
next
  case (Cons d docs)
  let ?req = "index_request cfg d"
  show ?case
  proof (cases "net (trace s) ?req")
    case (Rejected e)
    with Cons.prems have "r = Inl e" "trace s' = trace s @ [(?req, Rejected e)]"
      by (auto simp: indexDocument_spec)
    then show ?thesis by (intro exI [of _ "[(?req, Rejected e)]"]) simp
  next
    case (Resolved res)
    define s1 where "s1 = snd (indexDocument cfg net d s)"
    have t1: "trace s1 = trace s @ [(?req, Resolved res)]"
      by (simp add: s1_def indexDocument_spec Resolved)
    have m: "method_req ?req = POST"
      by (simp add: index_request_def)
    have "index_loop cfg net docs (if ok res then (su + 1, fa) else (su, fa + 1)) s1 = (r, s')"
      using Cons.prems by (simp add: s1_def indexDocument_spec Resolved split: if_splits)
    then obtain ps where ps: "trace s' = trace s1 @ ps" "list_all is_index ps"
      "length ps \<le> length docs"
      "\<forall>e. r = Inl e \<longrightarrow> (\<exists>x\<in>set ps. snd x = Rejected e)"
      "\<forall>su' fa'. r = Inr (su', fa') \<longrightarrow> length ps = length docs \<and>
            su' = (if ok res then su + 1 else su) + length (filter returned_true ps) \<and>
            fa' = (if ok res then fa else fa + 1) + length (filter returned_false ps) \<and>
            su' + fa' = su + fa + 1 + length docs"
      using Cons.IH [of "if ok res then su + 1 else su" "if ok res then fa else fa + 1" s1]
      by (auto split: if_splits)
    show ?thesis
      using ps t1 m by (intro exI [of _ "(?req, Resolved res) # ps"]) auto
  qed
qed

lemma index_loop_console:
  "index_loop cfg net docs acc s = (r, s') \<Longrightarrow> \<exists>ls. console s' = console s @ ls"
proof (induction docs arbitrary: acc s)
  case Nil
  then show ?case by (cases acc) simp
next
  case (Cons d docs)
  obtain su fa where acc: "acc = (su, fa)" by (cases acc)
  obtain r1 s1 where one: "indexDocument cfg net d s = (r1, s1)"
    by (cases "indexDocument cfg net d s")
  then have "\<exists>l1. console s1 = console s @ l1"
    by (auto simp: indexDocument_spec split: fetch_result.splits)
  then obtain l1 where l1: "console s1 = console s @ l1" ..
  show ?case
  proof (cases r1)
    case (Inl e)
    with Cons.prems one l1 acc show ?thesis by simp
  next
    case (Inr b)
    with Cons.prems one acc
    have "\<exists>acc'. index_loop cfg net docs acc' s1 = (r, s')" by (auto split: if_splits)
    then obtain acc' where "index_loop cfg net docs acc' s1 = (r, s')" ..
    from Cons.IH [OF this] l1 show ?thesis by auto
  qed
qed

subsection \<open>Failed index calls stay logged\<close>








subsection \<open>The two phases of main\<close>

lemma delete_phase_trace:
  assumes "delete_phase cfg net docs clean s = (r, s')"
  shows "\<exists>ds. trace s' = trace s @ ds \<and> list_all is_delete ds \<and> length ds \<le> length docs \<and>
           (\<not> clean \<longrightarrow> ds = [] \<and> (\<exists>u. r = Inr u)) \<and>
           (\<forall>u. r = Inr u \<longrightarrow> clean \<longrightarrow> length ds = length docs) \<and>
           (\<forall>e. r = Inl e \<longrightarrow> docs \<noteq> [])"
proof (cases clean)
  case False
  with assms have "r = Inr ()" "s' = s" by (simp_all add: delete_phase_def)
  with False show ?thesis by simp
next
  case True
  let ?s = "console_log ([55357, 56785, 65039] @ js ''  Deleting existing documents...'') s"
  obtain r1 s1 where loop: "delete_loop cfg net docs ?s = (r1, s1)"
    by (cases "delete_loop cfg net docs ?s")
  from delete_loop_trace [OF loop] obtain ds where ds: "trace s1 = trace s @ ds"
    "list_all is_delete ds" "length ds \<le> length docs"
    "\<forall>u. r1 = Inr u \<longrightarrow> length ds = length docs" "\<forall>e. r1 = Inl e \<longrightarrow> docs \<noteq> []"
    by auto
  have "r = r1 \<and> trace s' = trace s1"
    using assms True loop by (cases r1) (auto simp: delete_phase_def)
  with ds True show ?thesis by (intro exI [of _ ds]) simp
qed


lemma index_phase_trace:
  assumes "index_phase cfg net docs s = ((c, t), s')"
  shows "\<exists>ps. trace s' = trace s @ ps \<and> list_all is_index ps \<and> length ps \<le> length docs \<and>
           (t = None \<longrightarrow> (\<exists>e. c = Threw e) \<and> (\<exists>x\<in>set ps. \<exists>e. snd x = Rejected e)) \<and>
           (\<forall>su fa. t = Some (su, fa) \<longrightarrow> length ps = length docs \<and>
               su = length (filter returned_true ps) \<and>
               fa = length (filter returned_false ps) \<and>
               su + fa = length docs \<and>
               c = (if 0 < fa then Exited 1 else Returned) \<and>
               (\<exists>pre. console s' = pre @ [Log [], Log (summary_line su fa)]))"
proof -
  let ?s = "console_log ([55357, 56549] @ js '' Indexing documents...'') s"
  obtain r1 s1 where loop: "index_loop cfg net docs (0, 0) ?s = (r1, s1)"
    by (cases "index_loop cfg net docs (0, 0) ?s")
  from index_loop_trace [OF loop] obtain ps where ps: "trace s1 = trace s @ ps"
    "list_all is_index ps" "length ps \<le> length docs"
    "\<forall>e. r1 = Inl e \<longrightarrow> (\<exists>x\<in>set ps. snd x = Rejected e)"
    "\<forall>su' fa'. r1 = Inr (su', fa') \<longrightarrow> length ps = length docs \<and>
        su' = length (filter returned_true ps) \<and> fa' = length (filter returned_false ps) \<and>
        su' + fa' = length docs"
    by auto
  show ?thesis
  proof (cases r1)
    case (Inl e)
    with assms loop have "c = Threw e" "t = None" "s' = s1"
      by (simp_all add: index_phase_def)
    with ps Inl show ?thesis by (intro exI [of _ ps]) auto
  next
    case (Inr p)
    obtain su fa where p: "p = (su, fa)" by (cases p)
    from assms loop Inr p
    have "t = Some (su, fa)" "c = (if 0 < fa then Exited 1 else Returned)"
      "s' = console_log (summary_line su fa) (console_log [] s1)"
      by (auto simp: index_phase_def Let_def split: if_splits)
    with ps Inr p show ?thesis by (intro exI [of _ ps]) auto
  qed
qed


lemma phases_structure:
  assumes "(case delete_phase cfg net docs clean s5 of
              (Inl e, s6) \<Rightarrow> ((Threw e, None), s6)
            | (Inr u, s6) \<Rightarrow> index_phase cfg net docs s6) = ((c, t), s)"
  shows "\<exists>ds ps. trace s = trace s5 @ ds @ ps \<and> list_all is_delete ds \<and> list_all is_index ps \<and>
           length ds \<le> length docs \<and> length ps \<le> length docs \<and>
           (\<not> clean \<longrightarrow> ds = []) \<and>
           (t = None \<longrightarrow> (\<exists>e. c = Threw e)) \<and>
           (\<forall>su fa. t = Some (su, fa) \<longrightarrow>
               (clean \<longrightarrow> length ds = length docs) \<and> length ps = length docs \<and>
               su = length (filter returned_true ps) \<and>
               fa = length (filter returned_false ps) \<and>
               su + fa = length docs \<and>
               c = (if 0 < fa then Exited 1 else Returned) \<and>
               (\<exists>pre. console s = pre @ [Log [], Log (summary_line su fa)]))"
proof -
  obtain r6 s6 where dp: "delete_phase cfg net docs clean s5 = (r6, s6)"
    by (cases "delete_phase cfg net docs clean s5")
  from delete_phase_trace [OF dp] obtain ds where ds: "trace s6 = trace s5 @ ds"
    "list_all is_delete ds" "length ds \<le> length docs" "\<not> clean \<longrightarrow> ds = []"
    "\<forall>u. r6 = Inr u \<longrightarrow> clean \<longrightarrow> length ds = length docs"
    by blast
  show ?thesis
  proof (cases r6)
    case (Inl e)
    with assms dp have "c = Threw e" "t = None" "s = s6" by simp_all
    with ds show ?thesis by (intro exI [of _ ds] exI [of _ "[]"]) simp
  next
    case (Inr u)
    with assms dp have ip: "index_phase cfg net docs s6 = ((c, t), s)" by simp
    from index_phase_trace [OF ip] obtain ps where ps: "trace s = trace s6 @ ps"
      "list_all is_index ps" "length ps \<le> length docs"
      "t = None \<longrightarrow> (\<exists>e. c = Threw e)"
      "\<forall>su fa. t = Some (su, fa) \<longrightarrow> length ps = length docs \<and>
               su = length (filter returned_true ps) \<and>
               fa = length (filter returned_false ps) \<and>
               su + fa = length docs \<and>
               c = (if 0 < fa then Exited 1 else Returned) \<and>
               (\<exists>pre. console s = pre @ [Log [], Log (summary_line su fa)])"
      by blast
    from ds Inr have "clean \<longrightarrow> length ds = length docs" by simp
    with ds(1-4) ps show ?thesis by (intro exI [of _ ds] exI [of _ ps]) simp
  qed
qed


lemma trace_banner [simp]: "trace (banner cfg clean s) = trace s"
  by (simp add: banner_def Let_def)


lemma main_structure:
  assumes "main cfg net (Inr docs) argv s0 = ((c, t), s)"
  shows "\<exists>ds ps. trace s = trace s0 @ ds @ ps \<and> list_all is_delete ds \<and> list_all is_index ps \<and>
           length ds \<le> length docs \<and> length ps \<le> length docs \<and>
           (js ''--clean'' \<notin> set (drop 2 argv) \<longrightarrow> ds = []) \<and>
           (t = None \<longrightarrow> (\<exists>e. c = Threw e)) \<and>
           (\<forall>su fa. t = Some (su, fa) \<longrightarrow>
               (js ''--clean'' \<in> set (drop 2 argv) \<longrightarrow> length ds = length docs) \<and>
               length ps = length docs \<and>
               su = length (filter returned_true ps) \<and>
               fa = length (filter returned_false ps) \<and>
               su + fa = length docs \<and>
               c = (if 0 < fa then Exited 1 else Returned) \<and>
               (\<exists>pre. console s = pre @ [Log [], Log (summary_line su fa)]))"
proof -
  let ?clean = "js ''--clean'' \<in> set (drop 2 argv)"
  let ?s5 = "console_log (loaded_line (length docs)) (banner cfg ?clean s0)"
  from assms have
    "(case delete_phase cfg net docs ?clean ?s5 of
              (Inl e, s6) \<Rightarrow> ((Threw e, None), s6)
            | (Inr u, s6) \<Rightarrow> index_phase cfg net docs s6) = ((c, t), s)"
    by (simp add: main_def Let_def)
  from phases_structure [OF this] show ?thesis by simp
qed



lemma script_config_ok:
  assumes "truthy (env (js ''API_URL''))"
    and "truthy (js_or (env (js ''API_KEY'')) (env (js ''API_KEY_WRITER'')))"
  shows "\<exists>c t s.
           main \<lparr>API_URL = env (js ''API_URL''),
                 API_KEY = js_or (env (js ''API_KEY'')) (env (js ''API_KEY_WRITER''))\<rparr>
             net load argv \<lparr>console = [], trace = []\<rparr> = ((c, t), s) \<and>
           requests (script env net load argv) = trace s \<and>
           tally (script env net load argv) = t \<and>
           exit_code (script env net load argv) =
             (case c of Threw e \<Rightarrow> 1 | Exited n \<Rightarrow> n | Returned \<Rightarrow> 0) \<and>
           printed (script env net load argv) =
             console s @ (case c of Threw e \<Rightarrow> [ErrorWith (js ''Fatal error:'') e] | _ \<Rightarrow> [])"
proof -
  let ?m = "main \<lparr>API_URL = env (js ''API_URL''),
                 API_KEY = js_or (env (js ''API_KEY'')) (env (js ''API_KEY_WRITER''))\<rparr>
             net load argv \<lparr>console = [], trace = []\<rparr>"
  obtain c t s where m: "?m = ((c, t), s)"
    by (cases ?m) auto
  show ?thesis
    using assms m by (cases c) (simp_all add: script_def Let_def)
qed

lemma script_config_missing:
  assumes "\<not> truthy (env (js ''API_URL'')) \<or>
           \<not> truthy (js_or (env (js ''API_KEY'')) (env (js ''API_KEY_WRITER'')))"
  shows "exit_code (script env net load argv) = 1 \<and> requests (script env net load argv) = [] \<and>
         tally (script env net load argv) = None \<and>
         printed (script env net load argv) =
           (if \<not> truthy (env (js ''API_URL'')) then url_missing else key_missing)"
  using assms by (auto simp: script_def Let_def)

subsection \<open>The shape of a run\<close>

lemma is_delete_not_index: "is_delete x \<longleftrightarrow> \<not> is_index x"
  by (cases "method_req (fst x)") (simp_all add: is_delete_def is_index_def)

lemma filter_phases:
  assumes "list_all is_delete ds" and "list_all is_index ps"
  shows "filter is_index (ds @ ps) = ps \<and> filter is_delete (ds @ ps) = ds"
proof -
  have "filter is_index ds = []" "filter is_delete ps = []"
    using assms by (auto simp: list_all_iff is_delete_not_index)
  moreover have "filter is_index ps = ps" "filter is_delete ds = ds"
    using assms by (auto simp: list_all_iff)
  ultimately show ?thesis by simp
qed


lemma run_structure:
  "\<exists>ds ps. requests (script env net (Inr docs) argv) = ds @ ps \<and>
     list_all is_delete ds \<and> list_all is_index ps \<and>
     length ds \<le> length docs \<and> length ps \<le> length docs \<and>
     (js ''--clean'' \<notin> set (drop 2 argv) \<longrightarrow> ds = []) \<and>
     (tally (script env net (Inr docs) argv) = None \<longrightarrow>
        exit_code (script env net (Inr docs) argv) = 1) \<and>
     (\<forall>su fa. tally (script env net (Inr docs) argv) = Some (su, fa) \<longrightarrow>
        (js ''--clean'' \<in> set (drop 2 argv) \<longrightarrow> length ds = length docs) \<and>
        length ps = length docs \<and>
        su = length (filter returned_true ps) \<and>
        fa = length (filter returned_false ps) \<and>
        su + fa = length docs \<and>
        exit_code (script env net (Inr docs) argv) = (if 0 < fa then 1 else 0) \<and>
        (\<exists>pre. printed (script env net (Inr docs) argv) =
                 pre @ [Log [], Log (summary_line su fa)]))"
proof (cases "truthy (env (js ''API_URL'')) \<and>
    truthy (js_or (env (js ''API_KEY'')) (env (js ''API_KEY_WRITER'')))")
  case False
  then have "requests (script env net (Inr docs) argv) = []"
    "tally (script env net (Inr docs) argv) = None"
    "exit_code (script env net (Inr docs) argv) = 1"
    using script_config_missing [of env net "Inr docs" argv] by auto
  then show ?thesis by simp
next
  case True
  let ?r = "script env net (Inr docs) argv"
  from script_config_ok [of env net "Inr docs" argv] True
  obtain c t s where
    m: "main \<lparr>API_URL = env (js ''API_URL''),
               API_KEY = js_or (env (js ''API_KEY'')) (env (js ''API_KEY_WRITER''))\<rparr>
          net (Inr docs) argv \<lparr>console = [], trace = []\<rparr> = ((c, t), s)"
    and r: "requests ?r = trace s" "tally ?r = t"
      "exit_code ?r = (case c of Threw e \<Rightarrow> 1 | Exited n \<Rightarrow> n | Returned \<Rightarrow> 0)"
      "printed ?r = console s @ (case c of Threw e \<Rightarrow> [ErrorWith (js ''Fatal error:'') e] | _ \<Rightarrow> [])"
    by blast
  from main_structure [OF m] obtain ds ps where
    s0: "trace s = trace \<lparr>console = [], trace = []\<rparr> @ ds @ ps"
    and s: "list_all is_delete ds" "list_all is_index ps"
      "length ds \<le> length docs" "length ps \<le> length docs"
      "js ''--clean'' \<notin> set (drop 2 argv) \<longrightarrow> ds = []"
      "t = None \<longrightarrow> (\<exists>e. c = Threw e)"
    and fin: "\<forall>su fa. t = Some (su, fa) \<longrightarrow>
               (js ''--clean'' \<in> set (drop 2 argv) \<longrightarrow> length ds = length docs) \<and>
               length ps = length docs \<and>
               su = length (filter returned_true ps) \<and>
               fa = length (filter returned_false ps) \<and>
               su + fa = length docs \<and>
               c = (if 0 < fa then Exited 1 else Returned) \<and>
               (\<exists>pre. console s = pre @ [Log [], Log (summary_line su fa)])"
    by (elim exE conjE) (rule that, assumption+)
  from s0 have tr: "trace s = ds @ ps" by simp
  have none: "tally ?r = None \<longrightarrow> exit_code ?r = 1"
    using s(6) r by auto
  have some: "\<forall>su fa. tally ?r = Some (su, fa) \<longrightarrow>
        (js ''--clean'' \<in> set (drop 2 argv) \<longrightarrow> length ds = length docs) \<and>
        length ps = length docs \<and>
        su = length (filter returned_true ps) \<and>
        fa = length (filter returned_false ps) \<and>
        su + fa = length docs \<and>
        exit_code ?r = (if 0 < fa then 1 else 0) \<and>
        (\<exists>pre. printed ?r = pre @ [Log [], Log (summary_line su fa)])"
  proof (intro allI impI)
    fix su fa
    assume "tally ?r = Some (su, fa)"
    then have t: "t = Some (su, fa)" using r by simp
    with fin have d: "(js ''--clean'' \<in> set (drop 2 argv) \<longrightarrow> length ds = length docs)"
      "length ps = length docs" "su = length (filter returned_true ps)"
      "fa = length (filter returned_false ps)" "su + fa = length docs"
      "c = (if 0 < fa then Exited 1 else Returned)"
      "\<exists>pre. console s = pre @ [Log [], Log (summary_line su fa)]"
      by blast+
    from d(6) r(3) have "exit_code ?r = (if 0 < fa then 1 else 0)" by simp
    moreover from d(6) r(4) have "printed ?r = console s" by simp
    ultimately show "(js ''--clean'' \<in> set (drop 2 argv) \<longrightarrow> length ds = length docs) \<and>
        length ps = length docs \<and>
        su = length (filter returned_true ps) \<and>
        fa = length (filter returned_false ps) \<and>
        su + fa = length docs \<and>
        exit_code ?r = (if 0 < fa then 1 else 0) \<and>
        (\<exists>pre. printed ?r = pre @ [Log [], Log (summary_line su fa)])"
      using d by simp
  qed
  show ?thesis
    using r(1) tr s(1-5) none some by (intro exI [of _ ds] exI [of _ ps]) simp
qed



subsection \<open>Runs in which nothing throws\<close>






subsection \<open>Properties of every request\<close>

lemma delete_loop_all:
  assumes "\<And>seg out. P (delete_request cfg seg, out)"
  shows "list_all P (trace s) \<Longrightarrow> delete_loop cfg net docs s = (r, s') \<Longrightarrow> list_all P (trace s')"
proof (induction docs arbitrary: s)
  case Nil
  then show ?case by simp
next
  case (Cons d docs)
  obtain r1 s1 where one: "deleteDocument cfg net (id_doc d) s = (r1, s1)"
    by (cases "deleteDocument cfg net (id_doc d) s")
  then have l1: "list_all P (trace s1)"
    using Cons.prems(1) assms
    by (auto simp: deleteDocument_spec split: sum.splits fetch_result.splits)
  show ?case
  proof (cases r1)
    case (Inl e)
    with Cons.prems(2) one l1 show ?thesis by simp
  next
    case (Inr b)
    with Cons.prems(2) one have "delete_loop cfg net docs s1 = (r, s')" by simp
    from Cons.IH [OF l1 this] show ?thesis .
  qed
qed

lemma index_loop_all:
  assumes "\<And>d out. P (index_request cfg d, out)"
  shows "list_all P (trace s) \<Longrightarrow> index_loop cfg net docs acc s = (r, s') \<Longrightarrow> list_all P (trace s')"
proof (induction docs arbitrary: acc s)
  case Nil
  then show ?case by (cases acc) simp
next
  case (Cons d docs)
  obtain su fa where acc: "acc = (su, fa)" by (cases acc)
  obtain r1 s1 where one: "indexDocument cfg net d s = (r1, s1)"
    by (cases "indexDocument cfg net d s")
  then have l1: "list_all P (trace s1)"
    using Cons.prems(1) assms
    by (auto simp: indexDocument_spec split: fetch_result.splits)
  show ?case
  proof (cases r1)
    case (Inl e)
    with Cons.prems(2) one l1 acc show ?thesis by simp
  next
    case (Inr b)
    with Cons.prems(2) one acc
    have "\<exists>acc'. index_loop cfg net docs acc' s1 = (r, s')" by (auto split: if_splits)
    then obtain acc' where "index_loop cfg net docs acc' s1 = (r, s')" ..
    from Cons.IH [OF l1 this] show ?thesis .
  qed
qed

lemma main_all:
  assumes "\<And>seg out. P (delete_request cfg seg, out)"
    and "\<And>d out. P (index_request cfg d, out)"
    and "list_all P (trace s0)"
    and "main cfg net load argv s0 = (ct, s)"
  shows "list_all P (trace s)"
proof (cases load)
  case (Inl e)
  with assms(3,4) show ?thesis by (auto simp: main_def Let_def)
next
  case (Inr docs)
  let ?clean = "js ''--clean'' \<in> set (drop 2 argv)"
  let ?s5 = "console_log (loaded_line (length docs)) (banner cfg ?clean s0)"
  obtain r6 s6 where dp: "delete_phase cfg net docs ?clean ?s5 = (r6, s6)"
    by (cases "delete_phase cfg net docs ?clean ?s5")
  have l5: "list_all P (trace ?s5)"
    using assms(3) by simp
  have l6: "list_all P (trace s6)"
  proof (cases ?clean)
    case False
    with dp l5 show ?thesis by (simp add: delete_phase_def)
  next
    case True
    let ?s = "console_log ([55357, 56785, 65039] @ js ''  Deleting existing documents...'') ?s5"
    obtain r1 s1 where loop: "delete_loop cfg net docs ?s = (r1, s1)"
      by (cases "delete_loop cfg net docs ?s")
    from l5 have "list_all P (trace ?s)" by simp
    from delete_loop_all [of P cfg, OF assms(1) this loop] have "list_all P (trace s1)" .
    moreover have "trace s6 = trace s1"
      using dp True loop by (cases r1) (auto simp: delete_phase_def)
    ultimately show ?thesis by simp
  qed
  show ?thesis
  proof (cases r6)
    case (Inl e)
    with assms(4) Inr dp l6 show ?thesis by (auto simp: main_def Let_def)
  next
    case r: (Inr u)
    with assms(4) Inr dp have ip: "index_phase cfg net docs s6 = (ct, s)"
      by (simp add: main_def Let_def)
    let ?s7 = "console_log ([55357, 56549] @ js '' Indexing documents...'') s6"
    obtain r8 s8 where loop: "index_loop cfg net docs (0, 0) ?s7 = (r8, s8)"
      by (cases "index_loop cfg net docs (0, 0) ?s7")
    from l6 have "list_all P (trace ?s7)" by simp
    from index_loop_all [of P cfg, OF assms(2) this loop] have "list_all P (trace s8)" .
    moreover have "trace s = trace s8"
      using ip loop by (cases r8) (auto simp: index_phase_def Let_def split: if_splits prod.splits)
    ultimately show ?thesis by simp
  qed
qed

lemma delete_phase_console:
  assumes "delete_phase cfg net docs clean s = (r, s')"
  shows "\<exists>ls. console s' = console s @ ls"
proof (cases clean)
  case False
  with assms show ?thesis by (simp add: delete_phase_def)
next
  case True
  let ?s = "console_log ([55357, 56785, 65039] @ js ''  Deleting existing documents...'') s"
  obtain r1 s1 where loop: "delete_loop cfg net docs ?s = (r1, s1)"
    by (cases "delete_loop cfg net docs ?s")
  from delete_loop_console [OF loop] obtain ls where "console s1 = console ?s @ ls" ..
  moreover have "s' = s1 \<or> s' = console_log [] s1"
    using assms True loop by (cases r1) (auto simp: delete_phase_def)
  ultimately show ?thesis by auto
qed

lemma index_phase_console:
  assumes "index_phase cfg net docs s = (ct, s')"
  shows "\<exists>ls. console s' = console s @ ls"
proof -
  let ?s = "console_log ([55357, 56549] @ js '' Indexing documents...'') s"
  obtain r1 s1 where loop: "index_loop cfg net docs (0, 0) ?s = (r1, s1)"
    by (cases "index_loop cfg net docs (0, 0) ?s")
  from index_loop_console [OF loop] obtain ls where "console s1 = console ?s @ ls" ..
  moreover have "s' = s1 \<or> (\<exists>l. s' = console_log l (console_log [] s1))"
    using assms loop
    by (cases r1) (auto simp: index_phase_def Let_def split: if_splits prod.splits)
  ultimately show ?thesis by auto
qed

lemma main_console_first:
  assumes "main cfg net load argv s0 = (ct, s)"
  shows "\<exists>l ls. console s = console s0 @ Log l # ls"
proof -
  let ?clean = "js ''--clean'' \<in> set (drop 2 argv)"
  obtain l l0 where b: "console (banner cfg ?clean s0) = console s0 @ Log l # l0"
    by (simp add: banner_def Let_def)
  show ?thesis
  proof (cases load)
    case (Inl e)
    with assms b show ?thesis by (auto simp: main_def Let_def)
  next
    case (Inr docs)
    let ?s5 = "console_log (loaded_line (length docs)) (banner cfg ?clean s0)"
    obtain r6 s6 where dp: "delete_phase cfg net docs ?clean ?s5 = (r6, s6)"
      by (cases "delete_phase cfg net docs ?clean ?s5")
    from delete_phase_console [OF dp] obtain l6 where l6: "console s6 = console ?s5 @ l6" ..
    show ?thesis
    proof (cases r6)
      case (Inl e)
      with assms Inr dp have "s = s6" by (auto simp: main_def Let_def)
      with l6 b show ?thesis by simp
    next
      case r: (Inr u)
      with assms Inr dp have "index_phase cfg net docs s6 = (ct, s)"
        by (simp add: main_def Let_def)
      from index_phase_console [OF this] obtain l7 where "console s = console s6 @ l7" ..
      with l6 b show ?thesis by simp
    qed
  qed
qed

lemma truthy_js_or: "truthy (js_or a b) \<longleftrightarrow> truthy a \<or> truthy b"
  by (simp add: js_or_def)

section \<open>The claims\<close>














text \<open>
  \<^bold>\<open>C6.\<close> When \<open>API_URL\<close> is missing, or \<open>API_KEY\<close> and its fallback
  \<open>API_KEY_WRITER\<close> are both missing, the script exits with code 1, has issued no
  request, and has printed only its fatal error lines to the error stream. Missing covers
  unset and empty: both are falsy.
\<close>

theorem missing_config_is_fatal:
  assumes "\<not> truthy (env (js ''API_URL'')) \<or>
           \<not> truthy (js_or (env (js ''API_KEY'')) (env (js ''API_KEY_WRITER'')))"
  shows "exit_code (script env net load argv) = 1 \<and>
         requests (script env net load argv) = [] \<and>
         printed (script env net load argv) =
           (if \<not> truthy (env (js ''API_URL'')) then url_missing else key_missing)"
  using assms by (auto simp: script_def Let_def)

text \<open>
  C6 on a concrete run: an empty environment.
\<close>

theorem missing_config_is_fatal_witness:
  "\<not> truthy (Map.empty (js ''API_URL'')) \<and>
   exit_code (script Map.empty net_ok (Inr [doc_a]) argv_plain) = 1 \<and>
   requests (script Map.empty net_ok (Inr [doc_a]) argv_plain) = [] \<and>
   printed (script Map.empty net_ok (Inr [doc_a]) argv_plain) = url_missing"
proof -
  have h: "\<not> truthy (Map.empty (js ''API_URL'')) \<or>
           \<not> truthy (js_or (Map.empty (js ''API_KEY'')) (Map.empty (js ''API_KEY_WRITER'')))"
    by simp
  from missing_config_is_fatal [OF h, of net_ok "Inr [doc_a]" argv_plain] show ?thesis by simp
qed




text \<open>
  \<^bold>\<open>C8.\<close> With \<open>API_URL\<close> present, the bearer key sent with every request is
  \<open>API_KEY\<close> when that is set and not empty, and \<open>API_KEY_WRITER\<close> otherwise; the
  missing-key error is printed exactly when each of the two is unset or empty.
\<close>

theorem api_key_fallback:
  assumes "truthy (env (js ''API_URL''))"
  shows "(printed (script env net load argv) = key_missing \<longleftrightarrow>
            \<not> truthy (env (js ''API_KEY'')) \<and> \<not> truthy (env (js ''API_KEY_WRITER''))) \<and>
         (\<forall>x\<in>set (requests (script env net load argv)).
            (js ''Authorization'',
             js ''Bearer '' @
               interp (if truthy (env (js ''API_KEY'')) then env (js ''API_KEY'')
                       else env (js ''API_KEY_WRITER'')))
              \<in> set (headers (fst x)))"
proof (cases "truthy (js_or (env (js ''API_KEY'')) (env (js ''API_KEY_WRITER'')))")
  case False
  with assms have "printed (script env net load argv) = key_missing"
    "requests (script env net load argv) = []"
    using script_config_missing [of env net load argv] by auto
  with False show ?thesis by (simp add: truthy_js_or)
next
  case True
  let ?cfg = "\<lparr>API_URL = env (js ''API_URL''),
               API_KEY = js_or (env (js ''API_KEY'')) (env (js ''API_KEY_WRITER''))\<rparr>"
  let ?P = "\<lambda>x. (js ''Authorization'', js ''Bearer '' @ interp (API_KEY ?cfg)) \<in> set (headers (fst x))"
  from script_config_ok [OF assms True, of net load argv]
  obtain c t s where
    m: "main ?cfg net load argv \<lparr>console = [], trace = []\<rparr> = ((c, t), s)"
    and r: "requests (script env net load argv) = trace s"
      "printed (script env net load argv) =
         console s @ (case c of Threw e \<Rightarrow> [ErrorWith (js ''Fatal error:'') e] | _ \<Rightarrow> [])"
    by blast
  from main_console_first [OF m] obtain l ls where "console s = Log l # ls" by auto
  with r(2) have "printed (script env net load argv) \<noteq> key_missing"
    by (simp add: key_missing_def)
  moreover have "list_all ?P (trace s)"
    by (rule main_all [of ?P ?cfg, OF _ _ _ m])
      (simp_all add: delete_request_def index_request_def)
  then have "\<forall>x\<in>set (trace s).
            (js ''Authorization'',
             js ''Bearer '' @
               interp (if truthy (env (js ''API_KEY'')) then env (js ''API_KEY'')
                       else env (js ''API_KEY_WRITER'')))
              \<in> set (headers (fst x))"
    by (simp add: list_all_iff js_or_def)
  moreover from True have "truthy (env (js ''API_KEY'')) \<or> truthy (env (js ''API_KEY_WRITER''))"
    by (simp add: truthy_js_or)
  ultimately show ?thesis
    using r(1) by simp
qed

text \<open>
  C8 on a concrete run: \<open>API_KEY\<close> unset, \<open>API_KEY_WRITER\<close> set to \<open>secret\<close>.
\<close>

theorem api_key_fallback_witness:
  "truthy (demo_env (js ''API_URL'')) \<and>
   demo_env (js ''API_KEY'') = None \<and>
   printed (script demo_env net_ok (Inr [doc_a]) argv_plain) \<noteq> key_missing \<and>
   (js ''Authorization'', js ''Bearer '' @ js ''secret'')
     \<in> set (headers (fst (hd (requests (script demo_env net_ok (Inr [doc_a]) argv_plain)))))"
proof -
  have h: "truthy (demo_env (js ''API_URL''))"
    by code_simp
  have k: "demo_env (js ''API_KEY'') = None" "demo_env (js ''API_KEY_WRITER'') = Some (js ''secret'')"
    by code_simp+
  have s: "js ''secret'' \<noteq> []"
    by (simp add: js_def)
  have "requests (script demo_env net_ok (Inr [doc_a]) argv_plain) \<noteq> []"
    by code_simp
  then have "hd (requests (script demo_env net_ok (Inr [doc_a]) argv_plain))
      \<in> set (requests (script demo_env net_ok (Inr [doc_a]) argv_plain))"
    by simp
  with api_key_fallback [of demo_env net_ok "Inr [doc_a]" argv_plain, OF h] h k s show ?thesis
    by simp
qed

text \<open>
  An \<open>API_KEY\<close> that is set to the empty string is not absent, yet it is passed over:
  with \<open>API_KEY_WRITER\<close> unset the missing-key error is raised.
\<close>

theorem empty_key_counterexample:
  "env_empty_key (js ''API_KEY'') \<noteq> None \<and>
   printed (script env_empty_key net_ok (Inr [doc_a]) argv_plain) = key_missing \<and>
   exit_code (script env_empty_key net_ok (Inr [doc_a]) argv_plain) = 1"
  by code_simp

text \<open>
  \<^bold>\<open>C9.\<close> In every run that reaches the final summary, the reported numbers of
  indexed and failed documents add up to the number of documents loaded: exactly N index
  requests were issued, \<open>success\<close> counts those that returned true and \<open>failed\<close>
  those that returned false, and the last line printed reports these two numbers.
\<close>

theorem tally_sums_to_documents:
  assumes "tally (script env net (Inr docs) argv) = Some (su, fa)"
  shows "su + fa = length docs \<and>
         length (filter is_index (requests (script env net (Inr docs) argv))) = length docs \<and>
         su = length (filter returned_true (filter is_index (requests (script env net (Inr docs) argv)))) \<and>
         fa = length (filter returned_false (filter is_index (requests (script env net (Inr docs) argv)))) \<and>
         (\<exists>pre. printed (script env net (Inr docs) argv) = pre @ [Log [], Log (summary_line su fa)])"
proof -
  from run_structure [of env net docs argv] obtain ds ps where
    req: "requests (script env net (Inr docs) argv) = ds @ ps"
    and ph: "list_all is_delete ds" "list_all is_index ps"
    and le: "length ds \<le> length docs" "length ps \<le> length docs"
    and nc: "js ''--clean'' \<notin> set (drop 2 argv) \<longrightarrow> ds = []"
    and none: "tally (script env net (Inr docs) argv) = None \<longrightarrow>
        exit_code (script env net (Inr docs) argv) = 1"
    and some: "\<forall>su fa. tally (script env net (Inr docs) argv) = Some (su, fa) \<longrightarrow>
        (js ''--clean'' \<in> set (drop 2 argv) \<longrightarrow> length ds = length docs) \<and>
        length ps = length docs \<and>
        su = length (filter returned_true ps) \<and>
        fa = length (filter returned_false ps) \<and>
        su + fa = length docs \<and>
        exit_code (script env net (Inr docs) argv) = (if 0 < fa then 1 else 0) \<and>
        (\<exists>pre. printed (script env net (Inr docs) argv) =
                 pre @ [Log [], Log (summary_line su fa)])"
    by (elim exE conjE) (rule that, assumption+)
  have fi: "filter is_index (requests (script env net (Inr docs) argv)) = ps"
    and fd: "filter is_delete (requests (script env net (Inr docs) argv)) = ds"
    by (simp_all only: req filter_phases [OF ph])
  from some assms have "length ps = length docs" "su = length (filter returned_true ps)"
    "fa = length (filter returned_false ps)" "su + fa = length docs"
    "\<exists>pre. printed (script env net (Inr docs) argv) = pre @ [Log [], Log (summary_line su fa)]"
    by blast+
  then show ?thesis
    by (simp only: fi)
qed

text \<open>
  C9 on a concrete run: two documents, every index request answered with status 500.
\<close>

theorem tally_sums_to_documents_witness:
  "tally (script demo_env net_index_500 (Inr [doc_a, doc_b]) argv_plain) = Some (0, 2) \<and>
   (0::nat) + 2 = length [doc_a, doc_b] \<and>
   length (filter is_index (requests (script demo_env net_index_500 (Inr [doc_a, doc_b]) argv_plain)))
     = length [doc_a, doc_b]"
proof -
  have h: "tally (script demo_env net_index_500 (Inr [doc_a, doc_b]) argv_plain) = Some (0, 2)"
    by code_simp
  from tally_sums_to_documents [OF h] h show ?thesis by blast
qed



end
